theory Spec2Isabelle
  imports Complex_Main
begin

section \<open>Pipeline steps\<close>

text \<open>
  The page component of the front end (\<^verbatim>\<open>src/unnamed/part_000\<close>) keeps a list of pipeline
  steps, a result aggregate, a current error and a map of server-reported percentages. Every
  React state setter is modelled by explicit state passing: a handler takes the state and
  returns the state after all its queued updates have been applied, in the order the handler
  issues them. JavaScript numbers are modelled by \<^typ>\<open>real\<close>, strings by \<^typ>\<open>string\<close>.
\<close>

datatype StepStatus = Pending | Active | Completed | ErrorSt | Skipped

text \<open>
  \<^verbatim>\<open>PipelineStep\<close> of \<^verbatim>\<open>PipelineTracker.tsx\<close>. The field \<^verbatim>\<open>id\<close> is named \<open>step_id\<close>;
  the optional \<^verbatim>\<open>progress\<close> is an option; \<^verbatim>\<open>icon\<close> is the name of the icon component.
\<close>

record PipelineStep =
  step_id :: string
  label :: string
  description :: string
  icon :: string
  status :: StepStatus
  progress :: "real option"

definition mk_step :: "string \<Rightarrow> string \<Rightarrow> string \<Rightarrow> string \<Rightarrow> PipelineStep" where
  "mk_step i l d ic =
     \<lparr>step_id = i, label = l, description = d, icon = ic, status = Pending, progress = None\<rparr>"

definition INITIAL_STEPS :: "PipelineStep list" where
  "INITIAL_STEPS =
     [mk_step ''transcription'' ''Transcription'' ''Local Whisper'' ''FileText'',
      mk_step ''analysis'' ''Intelligence'' ''Brain + Research'' ''Cpu'',
      mk_step ''generation'' ''Content Hub'' ''Social Assets'' ''Share2'',
      mk_step ''visuals'' ''Visual Studio'' ''Carousel + Thumbnails'' ''Layout'',
      mk_step ''audio'' ''Audio Hub'' ''Neural Dubbing'' ''Volume2'',
      mk_step ''storage'' ''Airtable'' ''Production Board'' ''Database'']"

text \<open>The status a step list gives to a stage id (the first step carrying that id).\<close>

definition stage_status :: "PipelineStep list \<Rightarrow> string \<Rightarrow> StepStatus option" where
  "stage_status ss i = map_option status (find (\<lambda>s. step_id s = i) ss)"

subsection \<open>Numbers\<close>

text \<open>\<^verbatim>\<open>Math.round\<close>: the nearest integer, a tie going up.\<close>

definition js_round :: "real \<Rightarrow> real" where
  "js_round x = of_int \<lfloor>x + 1 / 2\<rfloor>"

text \<open>\<^verbatim>\<open>m[k] || d\<close> on a \<^verbatim>\<open>Record<string, number>\<close>: a missing key and the number 0 both give \<open>d\<close>.\<close>

definition num_or :: "real option \<Rightarrow> real \<Rightarrow> real" where
  "num_or v d = (case v of None \<Rightarrow> d | Some x \<Rightarrow> if x = 0 then d else x)"

subsection \<open>Displayed progress (\<^verbatim>\<open>stepsWithProgress\<close>)\<close>

definition displayProgress ::
  "(string \<rightharpoonup> real) \<Rightarrow> (string \<rightharpoonup> real) \<Rightarrow> PipelineStep \<Rightarrow> real" where
  "displayProgress realProgress simulatedProgress step =
     (let real = num_or (realProgress (step_id step)) 0;
          simulated = num_or (simulatedProgress (step_id step)) 0;
          progress = (if status step = Completed then 100
                      else if status step = Active then max real simulated
                      else 0)
      in js_round progress)"

definition stepsWithProgress ::
  "PipelineStep list \<Rightarrow> (string \<rightharpoonup> real) \<Rightarrow> (string \<rightharpoonup> real) \<Rightarrow> PipelineStep list" where
  "stepsWithProgress steps realProgress simulatedProgress =
     map (\<lambda>step. step\<lparr>progress := Some (displayProgress realProgress simulatedProgress step)\<rparr>)
       steps"

subsection \<open>Status updates\<close>

definition updateStepStatus :: "string \<Rightarrow> StepStatus \<Rightarrow> PipelineStep list \<Rightarrow> PipelineStep list" where
  "updateStepStatus i st prev =
     map (\<lambda>step. if step_id step = i
                  then step\<lparr>status := st,
                            progress := (if st = Completed then Some 100 else progress step)\<rparr>
                  else step) prev"

subsection \<open>The stage plan (\<^verbatim>\<open>smartSteps\<close>)\<close>

definition smartSteps :: "string list \<Rightarrow> PipelineStep list" where
  "smartSteps platforms =
     map (\<lambda>step.
        if step_id step = ''transcription'' \<or> step_id step = ''analysis''
           \<or> step_id step = ''storage'' then step
        else if step_id step = ''generation'' then
          (if list_ex (\<lambda>p. p \<in> set platforms) [''twitter'', ''blog'', ''linkedin'', ''newsletter'']
           then step else step\<lparr>status := Skipped\<rparr>)
        else if step_id step = ''visuals'' then
          (if ''visuals'' \<in> set platforms then step else step\<lparr>status := Skipped\<rparr>)
        else if step_id step = ''audio'' then
          (if ''audio'' \<in> set platforms then step else step\<lparr>status := Skipped\<rparr>)
        else step) INITIAL_STEPS"

section \<open>The page state\<close>

text \<open>
  Event payloads (\<^verbatim>\<open>event.data\<close>) are opaque to the handlers; a payload is represented by
  its JSON text. The result aggregate is \<^verbatim>\<open>null\<close> (\<open>None\<close>) or an object; a key whose value
  is \<^verbatim>\<open>undefined\<close> is a key the map does not have.
\<close>

type_synonym json = string

record state =
  steps :: "PipelineStep list"
  isLoading :: bool
  error :: "string option"
  result :: "(string \<rightharpoonup> json) option"
  activeSection :: string
  realProgress :: "string \<rightharpoonup> real"
  selectedPlatforms :: "string list"
  isThinking :: bool
  thinkingStep :: string
  thinkingLabel :: string
  thinkingText :: string

text \<open>The values the \<^verbatim>\<open>useState\<close> calls start from.\<close>

definition initial_state :: state where
  "initial_state =
     \<lparr>steps = INITIAL_STEPS, isLoading = False, error = None, result = None,
      activeSection = ''analysis'', realProgress = Map.empty, selectedPlatforms = [],
      isThinking = False, thinkingStep = [], thinkingLabel = [], thinkingText = []\<rparr>"

definition setStatus :: "string \<Rightarrow> StepStatus \<Rightarrow> state \<Rightarrow> state" where
  "setStatus i s st = st\<lparr>steps := updateStepStatus i s (steps st)\<rparr>"

text \<open>\<^verbatim>\<open>setResult(prev => ({ ...prev, [k]: d }))\<close>; spreading \<^verbatim>\<open>null\<close> gives the empty object.\<close>

definition setResultKey :: "string \<Rightarrow> json \<Rightarrow> state \<Rightarrow> state" where
  "setResultKey k d st =
     st\<lparr>result := Some ((case result st of None \<Rightarrow> Map.empty | Some m \<Rightarrow> m)(k \<mapsto> d))\<rparr>"

subsection \<open>Reset and stop\<close>

text \<open>
  \<^verbatim>\<open>resetSteps\<close>: the local storage keys are removed and the back end is asked to reset; a
  failure of that request is caught and logged, so its outcome (the flag) does not reach the
  state.
\<close>

definition resetSteps :: "bool \<Rightarrow> state \<Rightarrow> state" where
  "resetSteps backend_ok st =
     st\<lparr>steps := INITIAL_STEPS, error := None, result := None, isLoading := False,
        activeSection := ''analysis'', selectedPlatforms := [], thinkingStep := [],
        thinkingLabel := [], thinkingText := [], isThinking := False\<rparr>"

definition handleStopPipeline :: "state \<Rightarrow> state" where
  "handleStopPipeline st =
     st\<lparr>isLoading := False, isThinking := False, thinkingText := [], thinkingStep := [],
        thinkingLabel := [], error := Some ''Pipeline stopped by user'',
        steps := map (\<lambda>step. if status step = Active then step\<lparr>status := Pending\<rparr> else step)
                   (steps st)\<rparr>"

section \<open>Events\<close>

text \<open>
  The object \<^verbatim>\<open>JSON.parse\<close> returns for a line, by its \<^verbatim>\<open>type\<close> field. \<open>EvOther\<close> is an
  object whose type no \<^verbatim>\<open>case\<close> of the switch matches.
\<close>

datatype event =
    EvStatus string
  | EvProgress string real
  | EvThinkingStart string string
  | EvThinking string
  | EvThinkingDone
  | EvTranscript
  | EvAnalysis json
  | EvResearch json
  | EvLinkedin json
  | EvTwitter json
  | EvBlog json
  | EvHooks json
  | EvBroll json
  | EvSeo json
  | EvNewsletter json
  | EvCarousel json
  | EvThumbnails json
  | EvAudio json
  | EvAirtable
  | EvError string
  | EvOther

text \<open>The body of one \<^verbatim>\<open>case\<close> of the switch, as a state transformer.\<close>

fun apply_event :: "state \<Rightarrow> event \<Rightarrow> state" where
  "apply_event st (EvStatus m) = st"
| "apply_event st (EvProgress step percent) =
     st\<lparr>realProgress := (realProgress st)(step \<mapsto> percent)\<rparr>"
| "apply_event st (EvThinkingStart step lbl) =
     st\<lparr>isThinking := True, thinkingStep := step, thinkingLabel := lbl, thinkingText := []\<rparr>"
| "apply_event st (EvThinking token) = st\<lparr>thinkingText := thinkingText st @ token\<rparr>"
| "apply_event st EvThinkingDone = st\<lparr>isThinking := False\<rparr>"
| "apply_event st EvTranscript =
     setStatus ''analysis'' Active (setStatus ''transcription'' Completed st)"
| "apply_event st (EvAnalysis d) =
     (setStatus ''analysis'' Active (setResultKey ''analysis'' d st))\<lparr>activeSection := ''analysis''\<rparr>"
| "apply_event st (EvResearch d) =
     (setStatus ''generation'' Active
        (setStatus ''analysis'' Completed (setResultKey ''research'' d st)))
       \<lparr>activeSection := ''research''\<rparr>"
| "apply_event st (EvLinkedin d) =
     (setResultKey ''linkedin_post'' d st)\<lparr>activeSection := ''linkedin''\<rparr>"
| "apply_event st (EvTwitter d) =
     (setResultKey ''twitter_thread'' d st)\<lparr>activeSection := ''twitter''\<rparr>"
| "apply_event st (EvBlog d) = (setResultKey ''blog_post'' d st)\<lparr>activeSection := ''blog''\<rparr>"
| "apply_event st (EvHooks d) =
     (setResultKey ''linkedin_hooks'' d st)\<lparr>activeSection := ''hooks''\<rparr>"
| "apply_event st (EvBroll d) = setStatus ''features'' Active (setResultKey ''broll_images'' d st)"
| "apply_event st (EvSeo d) = setResultKey ''seo_score'' d st"
| "apply_event st (EvNewsletter d) =
     (setResultKey ''newsletter_html'' d st)\<lparr>activeSection := ''newsletter''\<rparr>"
| "apply_event st (EvCarousel d) =
     (setStatus ''visuals'' Active
        (setStatus ''generation'' Completed (setResultKey ''carousel'' d st)))
       \<lparr>activeSection := ''carousel''\<rparr>"
| "apply_event st (EvThumbnails d) =
     (setResultKey ''thumbnails'' d st)\<lparr>activeSection := ''thumbnails''\<rparr>"
| "apply_event st (EvAudio d) =
     (setStatus ''audio'' Active
        (setStatus ''visuals'' Completed (setResultKey ''audio'' d st)))
       \<lparr>activeSection := ''audio''\<rparr>"
| "apply_event st EvAirtable =
     setStatus ''storage'' Completed
       (setStatus ''features'' Completed (setStatus ''generation'' Completed st))"
| "apply_event st (EvError e) = st\<lparr>error := Some e, isLoading := False\<rparr>"
| "apply_event st EvOther = st"

text \<open>The \<^verbatim>\<open>error\<close> case ends with \<^verbatim>\<open>return\<close>: it leaves the handler.\<close>

fun returns :: "event \<Rightarrow> bool" where
  "returns (EvError e) = True"
| "returns _ = False"

text \<open>The stage ids an event's case passes to \<^verbatim>\<open>updateStepStatus\<close>.\<close>

fun event_targets :: "event \<Rightarrow> string list" where
  "event_targets EvTranscript = [''transcription'', ''analysis'']"
| "event_targets (EvAnalysis d) = [''analysis'']"
| "event_targets (EvResearch d) = [''analysis'', ''generation'']"
| "event_targets (EvBroll d) = [''features'']"
| "event_targets (EvCarousel d) = [''generation'', ''visuals'']"
| "event_targets (EvAudio d) = [''visuals'', ''audio'']"
| "event_targets EvAirtable = [''generation'', ''features'', ''storage'']"
| "event_targets _ = []"

section \<open>The frame decoder\<close>

text \<open>
  The reading loop appends each decoded chunk to a buffer, splits the buffer at line feeds,
  keeps the last piece as the new buffer and handles the pieces before it. A chunk here is
  the text \<^verbatim>\<open>decoder.decode(value, { stream: true })\<close> returns for one read.
\<close>

definition newline :: char where
  "newline = CHR 0x0A"

fun cons_hd :: "char \<Rightarrow> string list \<Rightarrow> string list" where
  "cons_hd c [] = [[c]]"
| "cons_hd c (l # ls) = (c # l) # ls"

text \<open>\<^verbatim>\<open>s.split("\n")\<close>: the pieces between line feeds; never the empty list.\<close>

fun js_split :: "string \<Rightarrow> string list" where
  "js_split [] = [[]]"
| "js_split (c # cs) = (if c = newline then [] # js_split cs else cons_hd c (js_split cs))"

text \<open>
  One pass of the loop body on the buffer: the complete lines and the new buffer
  (\<^verbatim>\<open>lines.pop() || ""\<close>).
\<close>

definition decode_chunk :: "string \<Rightarrow> string \<Rightarrow> string list \<times> string" where
  "decode_chunk buffer val =
     (let lines = js_split (buffer @ val)
      in (butlast lines, (case rev lines of [] \<Rightarrow> [] | l # _ \<Rightarrow> l)))"

text \<open>All lines the loop hands on, over the successive chunks of a stream, in order.\<close>

fun emitted_lines :: "string \<Rightarrow> string list \<Rightarrow> string list" where
  "emitted_lines buffer [] = []"
| "emitted_lines buffer (c # cs) =
     (case decode_chunk buffer c of (ls, b) \<Rightarrow> ls @ emitted_lines b cs)"

text \<open>What is left in the buffer when the reader reports \<^verbatim>\<open>done\<close>.\<close>

fun final_buffer :: "string \<Rightarrow> string list \<Rightarrow> string" where
  "final_buffer buffer [] = buffer"
| "final_buffer buffer (c # cs) = final_buffer (snd (decode_chunk buffer c)) cs"

section \<open>Handling a response\<close>

text \<open>
  \<^verbatim>\<open>!line.trim()\<close>: the line has white space only. The white space of ASCII is listed; a
  line of other white space is no JSON text either, and is passed over by the parse failure.
\<close>

definition is_space :: "char \<Rightarrow> bool" where
  "is_space c = (c = CHR 0x09 \<or> c = CHR 0x0A \<or> c = CHR 0x0B \<or> c = CHR 0x0C
                 \<or> c = CHR 0x0D \<or> c = CHR 0x20)"

definition is_blank :: "string \<Rightarrow> bool" where
  "is_blank line = list_all is_space line"

text \<open>
  The \<^verbatim>\<open>for\<close> loop over the lines of one chunk. \<open>parse\<close> stands for \<^verbatim>\<open>JSON.parse\<close> followed
  by the read of \<^verbatim>\<open>event.type\<close>: \<open>None\<close> when either throws, which the inner
  \<^verbatim>\<open>try/catch\<close> logs before going on with the next line. The flag of the result says that
  an \<^verbatim>\<open>error\<close> event made the handler return.
\<close>

fun process_lines :: "(string \<Rightarrow> event option) \<Rightarrow> state \<Rightarrow> string list \<Rightarrow> state \<times> bool" where
  "process_lines parse st [] = (st, False)"
| "process_lines parse st (line # rest) =
     (if is_blank line then process_lines parse st rest
      else case parse line of
             None \<Rightarrow> process_lines parse st rest
           | Some ev \<Rightarrow>
               if returns ev then (apply_event st ev, True)
               else process_lines parse (apply_event st ev) rest)"

text \<open>The \<^verbatim>\<open>while (true)\<close> loop over the reads, until \<^verbatim>\<open>done\<close>.\<close>

fun read_loop ::
  "(string \<Rightarrow> event option) \<Rightarrow> state \<Rightarrow> string \<Rightarrow> string list \<Rightarrow> state \<times> bool" where
  "read_loop parse st buffer [] = (st, False)"
| "read_loop parse st buffer (c # cs) =
     (case decode_chunk buffer c of
        (ls, b) \<Rightarrow>
          (case process_lines parse st ls of
             (st', True) \<Rightarrow> (st', True)
           | (st', False) \<Rightarrow> read_loop parse st' b cs))"

text \<open>
  How a response ends: the request fails (\<^verbatim>\<open>processVideoStream\<close> throws), the response has
  no body, or the body delivers chunks and then either reports \<^verbatim>\<open>done\<close> or a read fails.
\<close>

datatype stream_end = Done | ReadFailed string

datatype response = RequestFailed string | NoBody | Body "string list" stream_end

text \<open>The outer \<^verbatim>\<open>catch\<close>: the error is surfaced and every active step is marked.\<close>

definition on_failure :: "string \<Rightarrow> state \<Rightarrow> state" where
  "on_failure msg st =
     st\<lparr>error := Some msg,
        steps := map (\<lambda>step. if status step = Active then step\<lparr>status := ErrorSt\<rparr> else step)
                   (steps st)\<rparr>"

text \<open>The state when the request is sent: the plan is in place, transcription is active.\<close>

definition run_start :: "string list \<Rightarrow> state \<Rightarrow> state" where
  "run_start platforms st =
     setStatus ''transcription'' Active
       (st\<lparr>isLoading := True, error := None, steps := smartSteps platforms,
           selectedPlatforms := platforms, activeSection := ''analysis'',
           result := Some [''linkedin_hooks'' \<mapsto> ''[]'', ''broll_images'' \<mapsto> ''[]'']\<rparr>)"

definition handleProcessVideo ::
  "(string \<Rightarrow> event option) \<Rightarrow> string list \<Rightarrow> response \<Rightarrow> state \<Rightarrow> state" where
  "handleProcessVideo parse platforms resp st =
     (let st1 = run_start platforms st;
          st2 = (case resp of
                   RequestFailed msg \<Rightarrow> on_failure msg st1
                 | NoBody \<Rightarrow> on_failure ''Error: No response body'' st1
                 | Body chunks e \<Rightarrow>
                     (case read_loop parse st1 [] chunks of
                        (st', True) \<Rightarrow> st'
                      | (st', False) \<Rightarrow>
                          (case e of
                             Done \<Rightarrow> st'\<lparr>steps := map (\<lambda>step. step\<lparr>status := Completed\<rparr>) (steps st')\<rparr>
                           | ReadFailed msg \<Rightarrow> on_failure msg st')))
      in st2\<lparr>isLoading := False\<rparr>)"

section \<open>The simulated ramp (\<^verbatim>\<open>useMultiStepProgress\<close>)\<close>

text \<open>
  The hook keeps a map of simulated percentages and, in a ref, the timer handle of each id
  that has one. \<open>intervals\<close> is the set of ids with a handle in the ref; \<open>live\<close> is the set
  of ids whose timer has been set and not yet cleared, since only those can fire.
\<close>

record ramp =
  progressMap :: "string \<rightharpoonup> real"
  intervals :: "string set"
  live :: "string set"

text \<open>
  The effect's body for one step. \<open>shown\<close> is the map of the render the effect belongs to,
  which the guards read, while the updates go to the latest map.
\<close>

definition effect_step :: "(string \<rightharpoonup> real) \<Rightarrow> ramp \<Rightarrow> PipelineStep \<Rightarrow> ramp" where
  "effect_step shown r step =
     (let currentProgress = num_or (shown (step_id step)) 0 in
      if status step = Active \<and> step_id step \<notin> intervals r then
        r\<lparr>progressMap := (progressMap r)(step_id step \<mapsto> 5),
          intervals := insert (step_id step) (intervals r),
          live := insert (step_id step) (live r)\<rparr>
      else if status step = Completed then
        r\<lparr>intervals := intervals r - {step_id step},
          live := live r - {step_id step},
          progressMap := (if currentProgress \<noteq> 100 then (progressMap r)(step_id step \<mapsto> 100)
                          else progressMap r)\<rparr>
      else if status step = Pending then
        r\<lparr>intervals := intervals r - {step_id step},
          live := live r - {step_id step},
          progressMap := (if currentProgress \<noteq> 0 then (progressMap r)(step_id step \<mapsto> 0)
                          else progressMap r)\<rparr>
      else r)"

text \<open>
  The cleanup the effect returns clears the timer of every handle in the ref and leaves the
  handles where they are.
\<close>

definition effect_cleanup :: "ramp \<Rightarrow> ramp" where
  "effect_cleanup r = r\<lparr>live := live r - intervals r\<rparr>"

text \<open>
  One run of the effect. The page passes a fresh array of steps on every render, so the
  effect runs after every render: first the cleanup of the run before, then the body over
  all steps.
\<close>

definition ramp_effect :: "PipelineStep list \<Rightarrow> ramp \<Rightarrow> ramp" where
  "ramp_effect ss r = foldl (effect_step (progressMap r)) (effect_cleanup r) ss"

text \<open>
  The ramp once the page has come to rest on a list of steps. A run of the effect that
  writes to the map makes the page render again, and the effect runs once more on the same
  steps; that second run writes nothing.
\<close>

definition ramp_render :: "PipelineStep list \<Rightarrow> ramp \<Rightarrow> ramp" where
  "ramp_render ss r = ramp_effect ss (ramp_effect ss r)"

text \<open>
  One firing of the timer of an id, with the options the page passes
  (\<^verbatim>\<open>incrementPerMs: 0.05, maxProgress: 90, intervalMs: 100\<close>). A timer that has been cleared
  does not fire.
\<close>

definition tick :: "string \<Rightarrow> ramp \<Rightarrow> ramp" where
  "tick i r =
     (if i \<in> live r then
        (let current = num_or (progressMap r i) 5;
             next = min (current + 5 / 100 * 100) 90
         in r\<lparr>progressMap := (progressMap r)(i \<mapsto> js_round next)\<rparr>)
      else r)"

section \<open>Observations and sample runs\<close>

text \<open>The progress value the tracker shows for a stage id, given the simulated map.\<close>

definition shown_progress :: "state \<Rightarrow> (string \<rightharpoonup> real) \<Rightarrow> string \<Rightarrow> real option" where
  "shown_progress st simulatedProgress i =
     Option.bind (find (\<lambda>s. step_id s = i)
       (stepsWithProgress (steps st) (realProgress st) simulatedProgress)) progress"

text \<open>The state of a run started from the initial page after a sequence of events.\<close>

definition after_events :: "string list \<Rightarrow> event list \<Rightarrow> state" where
  "after_events platforms evs = foldl apply_event (run_start platforms initial_state) evs"

text \<open>What \<^verbatim>\<open>JSON.parse\<close> gives on the three lines the sample streams are made of.\<close>

definition parse_sample :: "string \<Rightarrow> event option" where
  \<open>parse_sample line =
     (if line = ''{"type":"transcript"}'' then Some EvTranscript
      else if line = ''{"type":"research","data":{}}'' then Some (EvResearch ''{}'')
      else if line = ''{"type":"error","error":"rate limited"}''
        then Some (EvError ''rate limited'')
      else None)\<close>

text \<open>A response body of three lines: a transcript, an error event, a research event.\<close>

definition error_stream :: "string list" where
  \<open>error_stream =
     [''{"type":"transcript"}'' @ [newline]
        @ ''{"type":"error","error":"rate limited"}'' @ [newline]
        @ ''{"type":"research","data":{}}'' @ [newline]]\<close>

text \<open>The ramp before any step has been active.\<close>

definition ramp_start :: ramp where
  "ramp_start = \<lparr>progressMap = Map.empty, intervals = {}, live = {}\<rparr>"

text \<open>The states a run passes through, one per applied event.\<close>

fun states_along :: "state \<Rightarrow> event list \<Rightarrow> state list" where
  "states_along st [] = [st]"
| "states_along st (ev # evs) = st # states_along (apply_event st ev) evs"

text \<open>
  The simulated map the page holds after a run's events: the hook is mounted on the initial
  page and comes to rest on the steps of every state the run passes through.
\<close>

definition simulated_after :: "string list \<Rightarrow> event list \<Rightarrow> string \<rightharpoonup> real" where
  "simulated_after platforms evs =
     progressMap
       (foldl (\<lambda>r st. ramp_render (steps st) r) ramp_start
          (initial_state # states_along (run_start platforms initial_state) evs))"

section \<open>Basic facts\<close>

lemmas plan_simps = run_start_def setStatus_def smartSteps_def INITIAL_STEPS_def mk_step_def
  updateStepStatus_def initial_state_def stage_status_def setResultKey_def

lemmas run_simps = plan_simps after_events_def

lemmas ramp_simps = simulated_after_def ramp_render_def ramp_effect_def effect_cleanup_def
  effect_step_def ramp_start_def

lemma js_round_mono: "x \<le> y \<Longrightarrow> js_round x \<le> js_round y"
  by (simp add: js_round_def floor_mono)

lemma stepsWithProgress_nth:
  "i < length ss \<Longrightarrow>
     stepsWithProgress ss rp sp ! i = (ss ! i)\<lparr>progress := Some (displayProgress rp sp (ss ! i))\<rparr>"
  by (simp add: stepsWithProgress_def)

lemma updateStepStatus_ids: "map step_id (updateStepStatus j s ss) = map step_id ss"
  by (induction ss) (simp_all add: updateStepStatus_def)

lemma updateStepStatus_id_set: "step_id ` set (updateStepStatus j s ss) = step_id ` set ss"
  by (metis set_map updateStepStatus_ids)

lemma updateStepStatus_absent: "i \<notin> step_id ` set ss \<Longrightarrow> updateStepStatus i s ss = ss"
  unfolding updateStepStatus_def by (intro map_idI) auto

lemma features_not_planned: "''features'' \<notin> step_id ` set (smartSteps platforms)"
  by (auto simp: smartSteps_def INITIAL_STEPS_def mk_step_def)

lemma updateStepStatus_length: "length (updateStepStatus j s ss) = length ss"
  by (simp add: updateStepStatus_def)

lemma updateStepStatus_nth_other:
  "i < length ss \<Longrightarrow> step_id (ss ! i) \<noteq> j \<Longrightarrow> updateStepStatus j s ss ! i = ss ! i"
  by (simp add: updateStepStatus_def)

lemma updateStepStatus_nth_status:
  "i < length ss \<Longrightarrow>
     status (updateStepStatus j s ss ! i) = (if step_id (ss ! i) = j then s else status (ss ! i))"
  by (simp add: updateStepStatus_def)

lemma updateStepStatus_nth_id:
  "i < length ss \<Longrightarrow> step_id (updateStepStatus j s ss ! i) = step_id (ss ! i)"
  by (simp add: updateStepStatus_def)

lemma apply_event_length: "length (steps (apply_event st ev)) = length (steps st)"
  by (cases ev) (simp_all add: setStatus_def setResultKey_def updateStepStatus_length)

text \<open>An event leaves alone every step whose id its case does not pass to an update.\<close>

lemma apply_event_untargeted:
  "i < length (steps st) \<Longrightarrow> step_id (steps st ! i) \<notin> set (event_targets ev) \<Longrightarrow>
     steps (apply_event st ev) ! i = steps st ! i"
  by (cases ev)
    (simp_all add: setStatus_def setResultKey_def updateStepStatus_length
       updateStepStatus_nth_other)

lemma apply_events_untargeted:
  "i < length (steps st) \<Longrightarrow>
   list_all (\<lambda>ev. step_id (steps st ! i) \<notin> set (event_targets ev)) evs \<Longrightarrow>
     steps (foldl apply_event st evs) ! i = steps st ! i"
proof (induction evs arbitrary: st)
  case Nil
  show ?case by simp
next
  case (Cons ev evs)
  have same: "steps (apply_event st ev) ! i = steps st ! i"
    using Cons.prems by (simp add: apply_event_untargeted)
  have "steps (foldl apply_event (apply_event st ev) evs) ! i = steps (apply_event st ev) ! i"
    using Cons.prems by (intro Cons.IH) (simp_all add: apply_event_length same)
  with same show ?case by simp
qed

section \<open>Facts about the ramp\<close>

text \<open>
  With steps of distinct ids, no timer is left once the page has come to rest: the run of
  the effect that sets a timer writes to the map, and the cleanup before the next run clears
  it while its handle keeps the guard from setting another. So no timer fires, and an active
  step's simulated value stays at 5.
\<close>

lemma effect_step_live_sub:
  "live r \<subseteq> intervals r \<Longrightarrow> live (effect_step sh r s) \<subseteq> intervals (effect_step sh r s)"
  by (auto simp: effect_step_def Let_def)

lemma effect_step_other:
  "i \<noteq> step_id s \<Longrightarrow> (i \<in> intervals (effect_step sh r s)) = (i \<in> intervals r)"
  by (auto simp: effect_step_def Let_def)

lemma effect_step_active:
  "status s = Active \<Longrightarrow> step_id s \<in> intervals (effect_step sh r s)"
  by (auto simp: effect_step_def Let_def)

lemma effect_fold_live_sub:
  "live r \<subseteq> intervals r \<Longrightarrow>
     live (foldl (effect_step sh) r ss) \<subseteq> intervals (foldl (effect_step sh) r ss)"
  by (induction ss arbitrary: r) (simp_all add: effect_step_live_sub)

lemma effect_fold_other:
  "i \<notin> step_id ` set ss \<Longrightarrow>
     (i \<in> intervals (foldl (effect_step sh) r ss)) = (i \<in> intervals r)"
  by (induction ss arbitrary: r) (simp_all add: effect_step_other)

lemma effect_fold_active:
  "distinct (map step_id ss) \<Longrightarrow> s \<in> set ss \<Longrightarrow> status s = Active \<Longrightarrow>
     step_id s \<in> intervals (foldl (effect_step sh) r ss)"
proof (induction ss arbitrary: r)
  case Nil
  then show ?case by simp
next
  case (Cons x xs)
  show ?case
  proof (cases "s = x")
    case True
    with Cons.prems have "step_id s \<notin> step_id ` set xs" by auto
    then show ?thesis
      using True Cons.prems(3) by (simp add: effect_fold_other effect_step_active)
  next
    case False
    with Cons.prems show ?thesis by (simp add: Cons.IH)
  qed
qed

lemma effect_fold_no_start:
  "live r = {} \<Longrightarrow> distinct (map step_id ss) \<Longrightarrow>
   list_all (\<lambda>s. status s \<noteq> Active \<or> step_id s \<in> intervals r) ss \<Longrightarrow>
     live (foldl (effect_step sh) r ss) = {}"
proof (induction ss arbitrary: r)
  case Nil
  then show ?case by simp
next
  case (Cons x xs)
  have l: "live (effect_step sh r x) = {}"
    using Cons.prems by (auto simp: effect_step_def Let_def)
  have "list_all (\<lambda>s. status s \<noteq> Active \<or> step_id s \<in> intervals (effect_step sh r x)) xs"
  proof -
    have "step_id x \<notin> set (map step_id xs)"
      using Cons.prems(2) by simp
    moreover have "step_id s \<in> set (map step_id xs)" if "s \<in> set xs" for s
      using that by simp
    ultimately have "step_id s \<noteq> step_id x" if "s \<in> set xs" for s
      using that by metis
    then show ?thesis
      using Cons.prems(3) by (auto simp: list_all_iff effect_step_other)
  qed
  with l Cons.prems show ?case by (simp add: Cons.IH)
qed

lemma ramp_render_no_live:
  assumes "distinct (map step_id ss)" and "live r \<subseteq> intervals r"
  shows "live (ramp_render ss r) = {}"
proof -
  let ?r1 = "ramp_effect ss r"
  have sub: "live ?r1 \<subseteq> intervals ?r1"
    unfolding ramp_effect_def using assms(2)
    by (intro effect_fold_live_sub) (auto simp: effect_cleanup_def)
  have act: "list_all (\<lambda>s. status s \<noteq> Active \<or> step_id s \<in> intervals (effect_cleanup ?r1)) ss"
    using effect_fold_active [OF assms(1)]
    by (auto simp: list_all_iff ramp_effect_def effect_cleanup_def)
  have "live (effect_cleanup ?r1) = {}"
    using sub by (auto simp: effect_cleanup_def)
  then show ?thesis
    unfolding ramp_render_def ramp_effect_def [of ss ?r1]
    using assms(1) act by (rule effect_fold_no_start)
qed

lemma tick_at_rest:
  "distinct (map step_id ss) \<Longrightarrow> live r \<subseteq> intervals r \<Longrightarrow>
     tick i (ramp_render ss r) = ramp_render ss r"
  by (simp add: tick_def ramp_render_no_live)

text \<open>The ramp the page holds for analysis, active, in the sample runs.\<close>

lemma simulated_transcript:
  "simulated_after [''twitter''] [EvTranscript] ''analysis'' = Some 5"
  by (simp add: run_simps ramp_simps num_or_def)

lemma simulated_report:
  "simulated_after [''twitter''] [EvTranscript, EvProgress ''analysis'' p] ''analysis'' = Some 5"
  by (simp add: run_simps ramp_simps num_or_def)

lemma simulated_two_reports:
  "simulated_after [''twitter'']
     [EvTranscript, EvProgress ''analysis'' p, EvProgress ''analysis'' q] ''analysis'' = Some 5"
  by (simp add: run_simps ramp_simps num_or_def)

section \<open>Facts about the frame decoder\<close>


lemma js_split_not_Nil: "js_split s \<noteq> []"
  by (induction s) (auto split: list.splits intro: cons_hd.elims)

lemma js_split_no_newline: "newline \<notin> set s \<Longrightarrow> js_split s = [s]"
  by (induction s) auto

lemma newline_last_js_split: "newline \<notin> set (last (js_split s))"
proof (induction s)
  case Nil
  show ?case by simp
next
  case (Cons c cs)
  show ?case
  proof (cases "js_split cs")
    case Nil
    then show ?thesis using js_split_not_Nil by simp
  next
    case (Cons l ls)
    then show ?thesis using Cons.IH by (cases ls) auto
  qed
qed


lemma cons_hd_append: "ls \<noteq> [] \<Longrightarrow> cons_hd c (ls @ ms) = cons_hd c ls @ ms"
  by (cases ls) auto

lemma js_split_append:
  "js_split (a @ b) = butlast (js_split a) @ js_split (last (js_split a) @ b)"
proof (induction a)
  case Nil
  show ?case by simp
next
  case (Cons c cs)
  show ?case
  proof (cases "c = newline")
    case True
    then show ?thesis using Cons.IH js_split_not_Nil by simp
  next
    case False
    obtain l ls where sp: "js_split cs = l # ls"
      using js_split_not_Nil by (cases "js_split cs") auto
    show ?thesis
    proof (cases ls)
      case Nil
      with sp False Cons.IH show ?thesis by simp
    next
      case (Cons m ms)
      with sp False Cons.IH show ?thesis by (simp add: cons_hd_append)
    qed
  qed
qed

lemma decode_chunk_eq: "decode_chunk buffer v = (butlast (js_split (buffer @ v)), last (js_split (buffer @ v)))"
proof -
  obtain l ls where "rev (js_split (buffer @ v)) = l # ls"
    using js_split_not_Nil by (cases "rev (js_split (buffer @ v))") auto
  moreover from this have "last (js_split (buffer @ v)) = l"
    by (metis hd_rev list.sel(1))
  ultimately show ?thesis by (simp add: decode_chunk_def Let_def)
qed

lemma emitted_lines_concat:
  "newline \<notin> set buffer \<Longrightarrow> emitted_lines buffer cs = butlast (js_split (buffer @ concat cs))"
proof (induction cs arbitrary: buffer)
  case Nil
  then show ?case by (simp add: js_split_no_newline)
next
  case (Cons c cs)
  have "emitted_lines buffer (c # cs) =
          butlast (js_split (buffer @ c)) @ emitted_lines (last (js_split (buffer @ c))) cs"
    by (simp add: decode_chunk_eq)
  also have "\<dots> = butlast (js_split (buffer @ c)) @
                   butlast (js_split (last (js_split (buffer @ c)) @ concat cs))"
    using Cons.IH [OF newline_last_js_split] by simp
  also have "\<dots> = butlast (butlast (js_split (buffer @ c)) @
                   js_split (last (js_split (buffer @ c)) @ concat cs))"
    by (simp add: butlast_append js_split_not_Nil)
  also have "\<dots> = butlast (js_split ((buffer @ c) @ concat cs))"
    by (simp only: js_split_append [of "buffer @ c" "concat cs"])
  finally show ?case by simp
qed

lemma final_buffer_concat:
  "newline \<notin> set buffer \<Longrightarrow> final_buffer buffer cs = last (js_split (buffer @ concat cs))"
proof (induction cs arbitrary: buffer)
  case Nil
  then show ?case by (simp add: js_split_no_newline)
next
  case (Cons c cs)
  have "final_buffer buffer (c # cs) = final_buffer (last (js_split (buffer @ c))) cs"
    by (simp add: decode_chunk_eq)
  also have "\<dots> = last (js_split (last (js_split (buffer @ c)) @ concat cs))"
    using Cons.IH [OF newline_last_js_split] by simp
  also have "\<dots> = last (butlast (js_split (buffer @ c)) @
                   js_split (last (js_split (buffer @ c)) @ concat cs))"
    by (simp add: js_split_not_Nil)
  also have "\<dots> = last (js_split ((buffer @ c) @ concat cs))"
    by (simp only: js_split_append [of "buffer @ c" "concat cs"])
  finally show ?case by simp
qed

lemma process_lines_append:
  "process_lines parse st (xs @ ys) =
     (case process_lines parse st xs of
        (st', True) \<Rightarrow> (st', True)
      | (st', False) \<Rightarrow> process_lines parse st' ys)"
  by (induction xs arbitrary: st) (auto split: option.splits prod.splits bool.splits)

lemma read_loop_emitted:
  "read_loop parse st buffer cs = process_lines parse st (emitted_lines buffer cs)"
proof (induction cs arbitrary: st buffer)
  case Nil
  show ?case by simp
next
  case (Cons c cs)
  show ?case
    by (auto simp: process_lines_append Cons.IH split: prod.splits bool.splits)
qed

text \<open>The pieces of a split, each with its line feed back, give the text.\<close>

lemma js_split_unsplit:
  "concat (map (\<lambda>l. l @ [newline]) (butlast (js_split s))) @ last (js_split s) = s"
proof (induction s)
  case Nil
  show ?case by simp
next
  case (Cons c cs)
  obtain l ls where sp: "js_split cs = l # ls"
    using js_split_not_Nil by (cases "js_split cs") auto
  show ?case
  proof (cases "c = newline")
    case True
    with Cons.IH sp show ?thesis by simp
  next
    case False
    with Cons.IH sp show ?thesis by (cases ls) auto
  qed
qed

lemma butlast_js_split_unterminated:
  assumes "newline \<notin> set r"
  shows "butlast (js_split (s @ r)) = butlast (js_split s)"
proof -
  have "newline \<notin> set (last (js_split s) @ r)"
    using assms newline_last_js_split by simp
  then have "js_split (last (js_split s) @ r) = [last (js_split s) @ r]"
    by (rule js_split_no_newline)
  then show ?thesis
    by (simp add: js_split_append [of s r] butlast_append)
qed

text \<open>A response body is handled as the complete lines of its whole text.\<close>

lemma handleProcessVideo_lines:
  "handleProcessVideo parse platforms (Body cs e) st =
     (let st1 = run_start platforms st;
          st2 = (case process_lines parse st1 (butlast (js_split (concat cs))) of
                   (st', True) \<Rightarrow> st'
                 | (st', False) \<Rightarrow>
                     (case e of
                        Done \<Rightarrow> st'\<lparr>steps := map (\<lambda>step. step\<lparr>status := Completed\<rparr>) (steps st')\<rparr>
                      | ReadFailed msg \<Rightarrow> on_failure msg st'))
      in st2\<lparr>isLoading := False\<rparr>)"
  by (simp add: handleProcessVideo_def read_loop_emitted emitted_lines_concat)

section \<open>Reported percentages and the displayed value\<close>

text \<open>
  C1, as stated, fails: a run for twitter receives \<^verbatim>\<open>transcript\<close>, then a progress event
  of 80 for analysis; the page's ramp for analysis stands at 5, so 80 is shown. The next
  progress event reports 40, the stored percentage is overwritten, and 40 is shown.
\<close>

theorem progress_event_lowers_display:
  "stage_status (steps (after_events [''twitter''] [EvTranscript, EvProgress ''analysis'' 80]))
       ''analysis'' = Some Active
   \<and> simulated_after [''twitter''] [EvTranscript, EvProgress ''analysis'' 80] ''analysis''
       = Some 5
   \<and> shown_progress (after_events [''twitter''] [EvTranscript, EvProgress ''analysis'' 80])
        (simulated_after [''twitter''] [EvTranscript, EvProgress ''analysis'' 80])
        ''analysis'' = Some 80
   \<and> simulated_after [''twitter'']
        [EvTranscript, EvProgress ''analysis'' 80, EvProgress ''analysis'' 40] ''analysis''
       = Some 5
   \<and> shown_progress
        (after_events [''twitter'']
           [EvTranscript, EvProgress ''analysis'' 80, EvProgress ''analysis'' 40])
        (simulated_after [''twitter'']
           [EvTranscript, EvProgress ''analysis'' 80, EvProgress ''analysis'' 40])
        ''analysis'' = Some 40"
  by (simp add: run_simps simulated_report simulated_two_reports shown_progress_def
      stepsWithProgress_def displayProgress_def num_or_def js_round_def)

text \<open>
  C1, amended: a progress event changes no status; it does not lower the displayed value of
  a step that is not active (the value stays as it is), nor of an active step whose stored
  percentage did not exceed its simulated value; and for every active step the displayed
  value after the event is never below the rounded simulated value.
\<close>

theorem progress_event_display_floor:
  "steps (apply_event st (EvProgress k p)) = steps st
   \<and> (status s \<noteq> Active
        \<or> num_or (realProgress st (step_id s)) 0 \<le> num_or (sp (step_id s)) 0 \<longrightarrow>
      displayProgress (realProgress st) sp s
        \<le> displayProgress (realProgress (apply_event st (EvProgress k p))) sp s)
   \<and> (status s = Active \<longrightarrow>
      js_round (num_or (sp (step_id s)) 0)
        \<le> displayProgress (realProgress (apply_event st (EvProgress k p))) sp s)
   \<and> (status s \<noteq> Active \<longrightarrow>
      displayProgress (realProgress (apply_event st (EvProgress k p))) sp s
        = displayProgress (realProgress st) sp s)"
  by (auto simp: displayProgress_def Let_def intro!: js_round_mono)

theorem progress_event_display_floor_witness:
  "status (steps (after_events [''twitter''] [EvTranscript, EvProgress ''analysis'' 3]) ! 1)
     = Active
   \<and> step_id (steps (after_events [''twitter''] [EvTranscript, EvProgress ''analysis'' 3]) ! 1)
       = ''analysis''
   \<and> simulated_after [''twitter''] [EvTranscript, EvProgress ''analysis'' 3] ''analysis''
       = Some 5
   \<and> num_or (realProgress (after_events [''twitter'']
                [EvTranscript, EvProgress ''analysis'' 3]) ''analysis'') 0
       \<le> num_or (simulated_after [''twitter''] [EvTranscript, EvProgress ''analysis'' 3]
                   ''analysis'') 0
   \<and> displayProgress
        (realProgress (after_events [''twitter''] [EvTranscript, EvProgress ''analysis'' 3]))
        (simulated_after [''twitter''] [EvTranscript, EvProgress ''analysis'' 3])
        (steps (after_events [''twitter''] [EvTranscript, EvProgress ''analysis'' 3]) ! 1) = 5
   \<and> displayProgress
        (realProgress (apply_event
           (after_events [''twitter''] [EvTranscript, EvProgress ''analysis'' 3])
           (EvProgress ''analysis'' 2)))
        (simulated_after [''twitter''] [EvTranscript, EvProgress ''analysis'' 3])
        (steps (after_events [''twitter''] [EvTranscript, EvProgress ''analysis'' 3]) ! 1) = 5
   \<and> status (steps (after_events [''twitter''] [EvTranscript, EvProgress ''analysis'' 3]) ! 2)
       \<noteq> Active
   \<and> displayProgress
        (realProgress (apply_event
           (after_events [''twitter''] [EvTranscript, EvProgress ''analysis'' 3])
           (EvProgress ''generation'' 2)))
        (simulated_after [''twitter''] [EvTranscript, EvProgress ''analysis'' 3])
        (steps (after_events [''twitter''] [EvTranscript, EvProgress ''analysis'' 3]) ! 2) = 0"
  using
    progress_event_display_floor
      [of "after_events [''twitter''] [EvTranscript, EvProgress ''analysis'' 3]"
        "''analysis''" 2
        "steps (after_events [''twitter''] [EvTranscript, EvProgress ''analysis'' 3]) ! 1"
        "simulated_after [''twitter''] [EvTranscript, EvProgress ''analysis'' 3]"]
    progress_event_display_floor
      [of "after_events [''twitter''] [EvTranscript, EvProgress ''analysis'' 3]"
        "''generation''" 2
        "steps (after_events [''twitter''] [EvTranscript, EvProgress ''analysis'' 3]) ! 2"
        "simulated_after [''twitter''] [EvTranscript, EvProgress ''analysis'' 3]"]
  by (simp add: run_simps simulated_report displayProgress_def num_or_def js_round_def)

text \<open>
  C5: while a step is active, the progress the tracker shows for it is the integer nearest
  to the maximum of the stored reported percentage and the simulated value (each 0 when
  absent), a tie going up: it is \<open>\<lfloor>m + 1/2\<rfloor>\<close> for that maximum \<open>m\<close>, an integer within
  1/2 of \<open>m\<close>. In particular, when the simulated value is an integer \<open>v\<close> and nothing above
  \<open>v\<close> was reported before, \<open>v\<close> is shown, and \<open>v\<close> is still shown after a progress event for
  that step whose percent \<open>p\<close> is at most \<open>v\<close>; \<open>v = 55\<close> and \<open>p = 40\<close> is the case of a
  ramp at 55 and a report of 40.
\<close>

theorem active_display_is_rounded_max:
  assumes "i < length (steps st)" and "status (steps st ! i) = Active"
  shows "progress (stepsWithProgress (steps st) (realProgress st) sp ! i)
       = Some (of_int \<lfloor>max (num_or (realProgress st (step_id (steps st ! i))) 0)
                            (num_or (sp (step_id (steps st ! i))) 0) + 1 / 2\<rfloor>)
    \<and> (\<exists>n::int. progress (stepsWithProgress (steps st) (realProgress st) sp ! i)
                    = Some (of_int n)
          \<and> \<bar>of_int n - max (num_or (realProgress st (step_id (steps st ! i))) 0)
                             (num_or (sp (step_id (steps st ! i))) 0)\<bar> \<le> 1 / 2)
    \<and> (0 \<le> v \<and> sp (step_id (steps st ! i)) = Some (of_int v)
         \<and> num_or (realProgress st (step_id (steps st ! i))) 0 \<le> of_int v
         \<and> p \<le> of_int v \<longrightarrow>
        progress (stepsWithProgress (steps st) (realProgress st) sp ! i) = Some (of_int v)
        \<and> progress (stepsWithProgress
             (steps (apply_event st (EvProgress (step_id (steps st ! i)) p)))
             (realProgress (apply_event st (EvProgress (step_id (steps st ! i)) p))) sp ! i)
           = Some (of_int v))"
proof -
  let ?m = "max (num_or (realProgress st (step_id (steps st ! i))) 0)
                (num_or (sp (step_id (steps st ! i))) 0)"
  have shown: "progress (stepsWithProgress (steps st) (realProgress st) sp ! i)
                 = Some (of_int \<lfloor>?m + 1 / 2\<rfloor>)"
    using assms by (simp add: stepsWithProgress_nth displayProgress_def js_round_def)
  have near: "\<bar>of_int \<lfloor>?m + 1 / 2\<rfloor> - ?m\<bar> \<le> 1 / 2"
    by linarith
  have same: "0 \<le> v \<Longrightarrow> q \<le> of_int v \<Longrightarrow>
        (of_int \<lfloor>max (num_or (Some q) 0) (num_or (Some (of_int v)) 0) + 1 / 2\<rfloor> :: real)
          = of_int v" for q :: real
    by (simp add: num_or_def max_def)
  have before: "progress (stepsWithProgress (steps st) (realProgress st) sp ! i)
                  = Some (of_int v)"
    if "0 \<le> v" and "sp (step_id (steps st ! i)) = Some (of_int v)"
      and "num_or (realProgress st (step_id (steps st ! i))) 0 \<le> of_int v"
  proof -
    have "?m = of_int v"
      using that by (simp add: num_or_def max_def)
    then show ?thesis using shown by simp
  qed
  have after: "progress (stepsWithProgress
             (steps (apply_event st (EvProgress (step_id (steps st ! i)) p)))
             (realProgress (apply_event st (EvProgress (step_id (steps st ! i)) p))) sp ! i)
           = Some (of_int v)"
    if "0 \<le> v" and "sp (step_id (steps st ! i)) = Some (of_int v)" and "p \<le> of_int v"
    using assms that same [of p]
    by (simp add: stepsWithProgress_nth displayProgress_def js_round_def)
  show ?thesis
    using shown near before after by auto
qed

theorem active_display_is_rounded_max_witness:
  "1 < length (steps (after_events [''twitter''] [EvTranscript]))
   \<and> status (steps (after_events [''twitter''] [EvTranscript]) ! 1) = Active
   \<and> step_id (steps (after_events [''twitter''] [EvTranscript]) ! 1) = ''analysis''
   \<and> simulated_after [''twitter''] [EvTranscript] ''analysis'' = Some (of_int 5)
   \<and> progress (stepsWithProgress (steps (after_events [''twitter''] [EvTranscript]))
        (realProgress (after_events [''twitter''] [EvTranscript]))
        (simulated_after [''twitter''] [EvTranscript]) ! 1) = Some 5
   \<and> progress (stepsWithProgress
        (steps (apply_event (after_events [''twitter''] [EvTranscript])
                  (EvProgress ''analysis'' 3)))
        (realProgress (apply_event (after_events [''twitter''] [EvTranscript])
                  (EvProgress ''analysis'' 3)))
        (simulated_after [''twitter''] [EvTranscript]) ! 1) = Some 5
   \<and> status (steps (after_events [''twitter''] [EvTranscript, EvProgress ''analysis'' (15 / 2)])
        ! 1) = Active
   \<and> progress (stepsWithProgress
        (steps (after_events [''twitter''] [EvTranscript, EvProgress ''analysis'' (15 / 2)]))
        (realProgress
           (after_events [''twitter''] [EvTranscript, EvProgress ''analysis'' (15 / 2)]))
        (simulated_after [''twitter''] [EvTranscript, EvProgress ''analysis'' (15 / 2)]) ! 1)
       = Some 8"
proof -
  have ramp: "simulated_after [''twitter''] [EvTranscript] ''analysis'' = Some (of_int 5)"
    by (simp add: simulated_transcript)
  have ramp': "simulated_after [''twitter''] [EvTranscript, EvProgress ''analysis'' (15 / 2)]
                 ''analysis'' = Some 5"
    by (rule simulated_report)
  have fl: "\<lfloor>15 / 2 + 1 / 2 :: real\<rfloor> = 8"
    by simp
  show ?thesis
    using ramp ramp' fl
      active_display_is_rounded_max
        [where st = "after_events [''twitter''] [EvTranscript]" and i = 1
          and sp = "simulated_after [''twitter''] [EvTranscript]" and v = 5 and p = 3]
      active_display_is_rounded_max
        [where st = "after_events [''twitter''] [EvTranscript, EvProgress ''analysis'' (15 / 2)]"
          and i = 1
          and sp = "simulated_after [''twitter''] [EvTranscript, EvProgress ''analysis'' (15 / 2)]"]
    by (simp add: run_simps num_or_def)
qed

section \<open>Status updates for an id no step carries\<close>

text \<open>
  C10: \<^verbatim>\<open>updateStepStatus\<close> with an id that no step of the list carries returns the list as it
  is, status and progress of every step included. No plan carries the id \<^verbatim>\<open>features\<close>, so
  the update the \<^verbatim>\<open>broll\<close> case issues changes no step, and of the three updates of the
  \<^verbatim>\<open>airtable\<close> case the one for \<^verbatim>\<open>features\<close> has no effect.
\<close>

theorem updateStepStatus_absent_id_noop:
  "(i \<notin> step_id ` set ss \<longrightarrow> updateStepStatus i s ss = ss)
   \<and> updateStepStatus ''features'' s (smartSteps platforms) = smartSteps platforms
   \<and> (''features'' \<notin> step_id ` set (steps st) \<longrightarrow>
        steps (apply_event st (EvBroll d)) = steps st
        \<and> steps (apply_event st EvAirtable)
            = updateStepStatus ''storage'' Completed
                (updateStepStatus ''generation'' Completed (steps st)))"
  using features_not_planned [of platforms]
  by (auto simp: setStatus_def setResultKey_def updateStepStatus_id_set updateStepStatus_absent)

theorem updateStepStatus_absent_id_noop_witness:
  "''features'' \<notin> step_id ` set (steps (after_events [''twitter''] [EvTranscript]))
   \<and> updateStepStatus ''features'' Active (steps (after_events [''twitter''] [EvTranscript]))
       = steps (after_events [''twitter''] [EvTranscript])
   \<and> steps (apply_event (after_events [''twitter''] [EvTranscript]) (EvBroll ''[]''))
       = steps (after_events [''twitter''] [EvTranscript])"
  using updateStepStatus_absent_id_noop
    [where i = "''features''" and ss = "steps (after_events [''twitter''] [EvTranscript])"
       and s = Active and st = "after_events [''twitter''] [EvTranscript]" and d = "''[]''"]
  by (simp add: run_simps)

section \<open>Skipped stages\<close>

text \<open>
  C2, as stated, fails: in a run for twitter the plan marks visuals as skipped; a
  \<^verbatim>\<open>carousel\<close> event makes it active, and a stream that ends normally (here with no line at
  all) leaves it completed.
\<close>

theorem skipped_stage_leaves_skipped:
  "stage_status (smartSteps [''twitter'']) ''visuals'' = Some Skipped
   \<and> stage_status
       (steps (after_events [''twitter''] [EvTranscript, EvResearch ''{}'', EvCarousel ''{}'']))
       ''visuals'' = Some Active
   \<and> stage_status
       (steps (handleProcessVideo parse_sample [''twitter''] (Body [] Done) initial_state))
       ''visuals'' = Some Completed"
  by (simp add: run_simps handleProcessVideo_def)

text \<open>
  C2, amended: a skipped step stays skipped over every sequence of events none of which
  passes the step's id to a status update, under a status update for any other id, when the
  run is stopped, and when the failure handler runs.
\<close>

theorem skipped_kept_when_not_targeted:
  assumes "i < length (steps st)" and "status (steps st ! i) = Skipped"
  shows "(list_all (\<lambda>ev. step_id (steps st ! i) \<notin> set (event_targets ev)) evs \<longrightarrow>
            status (steps (foldl apply_event st evs) ! i) = Skipped)
    \<and> (j \<noteq> step_id (steps st ! i) \<longrightarrow> status (updateStepStatus j s (steps st) ! i) = Skipped)
    \<and> status (steps (handleStopPipeline st) ! i) = Skipped
    \<and> status (steps (on_failure msg st) ! i) = Skipped"
  using assms
  by (auto simp: apply_events_untargeted updateStepStatus_nth_status handleStopPipeline_def
      on_failure_def)

theorem skipped_kept_when_not_targeted_witness:
  "3 < length (steps (run_start [''twitter''] initial_state))
   \<and> status (steps (run_start [''twitter''] initial_state) ! 3) = Skipped
   \<and> list_all
        (\<lambda>ev. step_id (steps (run_start [''twitter''] initial_state) ! 3)
                 \<notin> set (event_targets ev))
        [EvTranscript, EvAnalysis ''{}'', EvResearch ''{}'', EvTwitter ''[]'', EvAirtable]
   \<and> status (steps (after_events [''twitter'']
        [EvTranscript, EvAnalysis ''{}'', EvResearch ''{}'', EvTwitter ''[]'', EvAirtable]) ! 3)
       = Skipped
   \<and> status (steps (handleStopPipeline (run_start [''twitter''] initial_state)) ! 3) = Skipped"
  using skipped_kept_when_not_targeted
    [where st = "run_start [''twitter''] initial_state" and i = 3
      and evs = "[EvTranscript, EvAnalysis ''{}'', EvResearch ''{}'', EvTwitter ''[]'',
                  EvAirtable]"]
  by (simp add: run_simps)

section \<open>The error event\<close>

text \<open>
  C3: the \<^verbatim>\<open>error\<close> case stores the event's message and returns, and changes no step. On the
  sample body (transcript, error, research) the message \<^verbatim>\<open>rate limited\<close> is surfaced and
  the research line is not applied (generation stays pending), but analysis, active when the
  error arrives, is still active afterwards. A failed read at the same point, handled by the
  outer \<^verbatim>\<open>catch\<close>, does mark it as error.
\<close>

theorem error_event_leaves_stage_active:
  \<open>steps (apply_event st (EvError e)) = steps st
   \<and> error (apply_event st (EvError e)) = Some e
   \<and> stage_status
       (steps (handleProcessVideo parse_sample [''twitter''] (Body error_stream Done)
          initial_state)) ''analysis'' = Some Active
   \<and> error (handleProcessVideo parse_sample [''twitter''] (Body error_stream Done)
        initial_state) = Some ''rate limited''
   \<and> stage_status
       (steps (handleProcessVideo parse_sample [''twitter''] (Body error_stream Done)
          initial_state)) ''generation'' = Some Pending
   \<and> stage_status
       (steps (handleProcessVideo parse_sample [''twitter'']
          (Body [''{"type":"transcript"}'' @ [newline]] (ReadFailed ''TypeError: network error''))
          initial_state)) ''analysis'' = Some ErrorSt\<close>
  by (simp add: plan_simps handleProcessVideo_def decode_chunk_def newline_def is_blank_def
      is_space_def parse_sample_def on_failure_def error_stream_def)

section \<open>The terminal persistence event\<close>

text \<open>
  C4, as stated, fails: in a run for twitter, visuals and audio, the audio step is active
  after the \<^verbatim>\<open>audio\<close> event and is still active after \<^verbatim>\<open>airtable\<close>.
\<close>

theorem airtable_leaves_audio_active:
  "stage_status (steps (after_events [''twitter'', ''visuals'', ''audio'']
       [EvTranscript, EvResearch ''{}'', EvCarousel ''{}'', EvAudio ''{}''])) ''audio''
     = Some Active
   \<and> stage_status (steps (after_events [''twitter'', ''visuals'', ''audio'']
       [EvTranscript, EvResearch ''{}'', EvCarousel ''{}'', EvAudio ''{}'', EvAirtable]))
       ''audio''
     = Some Active"
  by (simp add: run_simps)

text \<open>
  C4, amended: the \<^verbatim>\<open>airtable\<close> event sets the status of every step whose id is
  \<^verbatim>\<open>generation\<close>, \<^verbatim>\<open>features\<close> or \<^verbatim>\<open>storage\<close> to completed, active or not, and leaves the
  status of every other step as it was.
\<close>

theorem airtable_completes_named_stages:
  assumes "i < length (steps st)"
  shows "status (steps (apply_event st EvAirtable) ! i)
       = (if step_id (steps st ! i) = ''generation'' \<or> step_id (steps st ! i) = ''features''
             \<or> step_id (steps st ! i) = ''storage''
          then Completed else status (steps st ! i))
     \<and> step_id (steps (apply_event st EvAirtable) ! i) = step_id (steps st ! i)"
  using assms
  by (simp add: setStatus_def updateStepStatus_nth_status updateStepStatus_nth_id
      updateStepStatus_length)

theorem airtable_completes_named_stages_witness:
  "2 < length (steps (after_events [''twitter''] [EvTranscript, EvResearch ''{}'']))
   \<and> step_id (steps (after_events [''twitter''] [EvTranscript, EvResearch ''{}'']) ! 2)
       = ''generation''
   \<and> status (steps (after_events [''twitter''] [EvTranscript, EvResearch ''{}'']) ! 2) = Active
   \<and> status (steps (apply_event
        (after_events [''twitter''] [EvTranscript, EvResearch ''{}'']) EvAirtable) ! 2)
       = Completed"
  using airtable_completes_named_stages
    [of 2 "after_events [''twitter''] [EvTranscript, EvResearch ''{}'']"]
  by (simp add: run_simps)

section \<open>Split invariance of the frame decoder\<close>

text \<open>
  C6: the lines the reading loop hands on are the pieces of the whole text before its last
  line feed, so two chunkings of the same text give the same lines in the same order and
  the same handling of the response. Each handed-on line is followed by a line feed in the
  text; what follows the last line feed stays in the buffer, holds no line feed, and is
  never handed on: a response with such a remainder is handled like the response without
  it, and the loop has no error branch for it.
\<close>

theorem frame_decoder_split_invariant:
  "emitted_lines [] cs = butlast (js_split (concat cs))
   \<and> (concat cs = concat cs' \<longrightarrow>
        emitted_lines [] cs = emitted_lines [] cs'
        \<and> handleProcessVideo parse platforms (Body cs e) st
            = handleProcessVideo parse platforms (Body cs' e) st)
   \<and> concat (map (\<lambda>l. l @ [newline]) (emitted_lines [] cs)) @ final_buffer [] cs = concat cs
   \<and> newline \<notin> set (final_buffer [] cs)
   \<and> (newline \<notin> set r \<longrightarrow>
        emitted_lines [] (cs @ [r]) = emitted_lines [] cs
        \<and> handleProcessVideo parse platforms (Body (cs @ [r]) e) st
            = handleProcessVideo parse platforms (Body cs e) st)"
proof -
  have a: "emitted_lines [] cs = butlast (js_split (concat cs))" for cs
    using emitted_lines_concat [of "[]" cs] by simp
  have b: "final_buffer [] cs = last (js_split (concat cs))"
    using final_buffer_concat [of "[]" cs] by simp
  have c: "butlast (js_split (concat (cs @ [r]))) = butlast (js_split (concat cs))"
    if "newline \<notin> set r"
    using butlast_js_split_unterminated [OF that, of "concat cs"] by simp
  show ?thesis
    using c by (simp add: a b js_split_unsplit newline_last_js_split handleProcessVideo_lines)
qed

theorem frame_decoder_split_invariant_witness:
  \<open>concat [''{"type":"tran'', ''script"}'' @ [newline] @ ''{"ty'', ''pe":'']
     = concat [''{"type":"transcript"}'' @ [newline], ''{"type":'']
   \<and> emitted_lines [] [''{"type":"tran'', ''script"}'' @ [newline] @ ''{"ty'', ''pe":'']
       = [''{"type":"transcript"}'']
   \<and> emitted_lines [] [''{"type":"transcript"}'' @ [newline], ''{"type":'']
       = [''{"type":"transcript"}'']
   \<and> final_buffer [] [''{"type":"tran'', ''script"}'' @ [newline] @ ''{"ty'', ''pe":'']
       = ''{"type":''
   \<and> newline \<notin> set ''{"type":''
   \<and> emitted_lines [] [''{"type":"transcript"}'' @ [newline]] = [''{"type":"transcript"}'']\<close>
  using
    frame_decoder_split_invariant
      [where cs = \<open>[''{"type":"tran'', ''script"}'' @ [newline] @ ''{"ty'', ''pe":'']\<close>
        and cs' = \<open>[''{"type":"transcript"}'' @ [newline], ''{"type":'']\<close>]
    frame_decoder_split_invariant
      [where cs = \<open>[''{"type":"transcript"}'' @ [newline]]\<close> and r = \<open>''{"type":''\<close>]
  by (simp add: newline_def decode_chunk_def)

section \<open>The plan for a single output\<close>

text \<open>
  C7, as stated, fails: the plan for twitter has no step with the id \<^verbatim>\<open>blog\<close> or
  \<^verbatim>\<open>newsletter\<close>, so it gives those ids no status.
\<close>

theorem plan_has_no_blog_stage:
  "stage_status (smartSteps [''twitter'']) ''blog'' = None
   \<and> stage_status (smartSteps [''twitter'']) ''newsletter'' = None"
  by (simp add: plan_simps)

text \<open>
  C7, amended: for requested outputs \<open>{twitter}\<close> the plan consists of the six steps
  transcription, analysis, generation, visuals, audio and storage, in this order; visuals
  and audio are skipped, the other four are pending.
\<close>

theorem plan_for_twitter:
  assumes "set platforms = {''twitter''}"
  shows "map (\<lambda>s. (step_id s, status s)) (smartSteps platforms) =
     [(''transcription'', Pending), (''analysis'', Pending), (''generation'', Pending),
      (''visuals'', Skipped), (''audio'', Skipped), (''storage'', Pending)]"
  using assms by (simp add: smartSteps_def INITIAL_STEPS_def mk_step_def)

theorem plan_for_twitter_witness:
  "set [''twitter''] = {''twitter''}
   \<and> map (\<lambda>s. (step_id s, status s)) (smartSteps [''twitter'']) =
     [(''transcription'', Pending), (''analysis'', Pending), (''generation'', Pending),
      (''visuals'', Skipped), (''audio'', Skipped), (''storage'', Pending)]"
  using plan_for_twitter [of "[''twitter'']"] by simp

section \<open>Stop and reset\<close>

text \<open>
  C8: when the run is stopped, a step that was active is pending, the tracker shows 0 for
  it whatever the reported and simulated maps hold, the ramp's effect for the step sets its
  simulated value to 0 and drops its timer, and the surfaced error is the fixed text
  \<^verbatim>\<open>Pipeline stopped by user\<close>. The failure handler, on the same state, marks the step as
  error and surfaces the failure's own message.
\<close>

theorem stop_demotes_active_stage:
  assumes "i < length (steps st)" and "status (steps st ! i) = Active"
  shows "status (steps (handleStopPipeline st) ! i) = Pending
    \<and> step_id (steps (handleStopPipeline st) ! i) = step_id (steps st ! i)
    \<and> progress (stepsWithProgress (steps (handleStopPipeline st))
         (realProgress (handleStopPipeline st)) sp ! i) = Some 0
    \<and> num_or (progressMap (effect_step (progressMap r) r (steps (handleStopPipeline st) ! i))
         (step_id (steps st ! i))) 0 = 0
    \<and> step_id (steps st ! i)
         \<notin> intervals (effect_step (progressMap r) r (steps (handleStopPipeline st) ! i))
    \<and> step_id (steps st ! i)
         \<notin> live (effect_step (progressMap r) r (steps (handleStopPipeline st) ! i))
    \<and> error (handleStopPipeline st) = Some ''Pipeline stopped by user''
    \<and> status (steps (on_failure msg st) ! i) = ErrorSt
    \<and> error (on_failure msg st) = Some msg"
  using assms
  by (simp add: handleStopPipeline_def on_failure_def stepsWithProgress_nth displayProgress_def
      js_round_def effect_step_def num_or_def split: option.splits)

theorem stop_demotes_active_stage_witness:
  "2 < length (steps (after_events [''twitter''] [EvTranscript, EvResearch ''{}'']))
   \<and> step_id (steps (after_events [''twitter''] [EvTranscript, EvResearch ''{}'']) ! 2)
       = ''generation''
   \<and> status (steps (after_events [''twitter''] [EvTranscript, EvResearch ''{}'']) ! 2) = Active
   \<and> status (steps (handleStopPipeline
        (after_events [''twitter''] [EvTranscript, EvResearch ''{}''])) ! 2) = Pending
   \<and> shown_progress (handleStopPipeline
        (after_events [''twitter''] [EvTranscript, EvProgress ''generation'' 70, EvResearch ''{}'']))
        (simulated_after [''twitter'']
           [EvTranscript, EvProgress ''generation'' 70, EvResearch ''{}''])
        ''generation'' = Some 0
   \<and> error (handleStopPipeline (after_events [''twitter''] [EvTranscript, EvResearch ''{}'']))
       = Some ''Pipeline stopped by user''"
  using stop_demotes_active_stage
    [where st = "after_events [''twitter''] [EvTranscript, EvResearch ''{}'']" and i = 2]
  by (simp add: run_simps handleStopPipeline_def shown_progress_def stepsWithProgress_def
      displayProgress_def js_round_def)

text \<open>
  C9: whatever the state, \<^verbatim>\<open>resetSteps\<close> puts the initial step list back, in which all six
  steps are pending, sets the result aggregate to \<^verbatim>\<open>null\<close>, and clears the error and the
  loading flag; the outcome of the request to the back end plays no part.
\<close>

theorem resetSteps_restores_initial:
  "steps (resetSteps ok st) = INITIAL_STEPS
   \<and> map status (steps (resetSteps ok st)) = replicate 6 Pending
   \<and> result (resetSteps ok st) = None
   \<and> error (resetSteps ok st) = None
   \<and> isLoading (resetSteps ok st) = False"
  by (simp add: resetSteps_def INITIAL_STEPS_def mk_step_def numeral_eq_Suc)

end
